theory Spec2Isabelle
  imports Main "HOL-Library.Word"
begin

section \<open>Machine types and constants\<close>

text \<open>
  \<^verbatim>\<open>block_store.c\<close> works on bytes and on \<^verbatim>\<open>size_t\<close> values. A byte is an 8-bit
  word; \<^verbatim>\<open>size_t\<close> is taken to be 64 bits wide, so that \<^verbatim>\<open>SIZE_MAX\<close> is the word
  \<open>- 1\<close> and subtraction wraps around as it does in C.
\<close>

type_synonym byte = "8 word"
type_synonym size_t = "64 word"

definition BLOCK_SIZE :: size_t where
  "BLOCK_SIZE = 256"

definition BLOCK_COUNT :: size_t where
  "BLOCK_COUNT = 256"

definition SIZE_MAX :: size_t where
  "SIZE_MAX = - 1"

section \<open>The bitmap library\<close>

text \<open>
  Modelled from the spec: \<^verbatim>\<open>bitmap.c\<close> and \<^verbatim>\<open>bitmap.h\<close> (the functions
  \<^verbatim>\<open>bitmap_create\<close>, \<^verbatim>\<open>bitmap_set\<close>, \<^verbatim>\<open>bitmap_reset\<close>, \<^verbatim>\<open>bitmap_test\<close>,
  \<^verbatim>\<open>bitmap_ffz\<close>, \<^verbatim>\<open>bitmap_total_set\<close> and the type \<^verbatim>\<open>bitmap_t\<close>) are built by
  \<^verbatim>\<open>CMakeLists.txt\<close> but are not among the source files. The definitions below follow
  section 4.1 and the data model of the specification: a bitmap has a fixed \<open>bit_count\<close>
  and a byte buffer of \<open>ceil (bit_count / 8)\<close> bytes; bit \<open>i\<close> lives in byte \<open>i div 8\<close>
  (the position inside the byte, here \<open>i mod 8\<close>, is not observable through the
  operations); an index \<open>\<ge> bit_count\<close> is rejected: \<open>set\<close> and \<open>reset\<close> do nothing,
  \<open>test\<close> answers false. Only bitmaps that exist are modelled (the block store never
  holds a null bitmap, see \<open>block_store_create\<close>).
\<close>

record bitmap_t =
  bit_count :: nat
  data :: "byte list"

definition bitmap_create :: "size_t \<Rightarrow> bitmap_t option" where
  "bitmap_create n =
     (if n = 0 then None
      else Some \<lparr>bit_count = unat n, data = replicate ((unat n + 7) div 8) 0\<rparr>)"

definition bitmap_set :: "bitmap_t \<Rightarrow> size_t \<Rightarrow> bitmap_t" where
  "bitmap_set b i =
     (if unat i < bit_count b
      then b\<lparr>data := (data b)[unat i div 8 := set_bit (unat i mod 8) (data b ! (unat i div 8))]\<rparr>
      else b)"

definition bitmap_reset :: "bitmap_t \<Rightarrow> size_t \<Rightarrow> bitmap_t" where
  "bitmap_reset b i =
     (if unat i < bit_count b
      then b\<lparr>data := (data b)[unat i div 8 := unset_bit (unat i mod 8) (data b ! (unat i div 8))]\<rparr>
      else b)"

definition bitmap_test :: "bitmap_t \<Rightarrow> size_t \<Rightarrow> bool" where
  "bitmap_test b i \<longleftrightarrow> unat i < bit_count b \<and> bit (data b ! (unat i div 8)) (unat i mod 8)"

text \<open>
  \<open>ffz\<close>: the first clear bit scanning from index 0, \<^verbatim>\<open>SIZE_MAX\<close> when every bit is
  set. \<open>total_set\<close>: the number of set bits of the whole range.
\<close>

definition bitmap_ffz :: "bitmap_t \<Rightarrow> size_t" where
  "bitmap_ffz b =
     (case find (\<lambda>k. \<not> bitmap_test b (of_nat k)) [0..<bit_count b] of
        None \<Rightarrow> SIZE_MAX
      | Some k \<Rightarrow> of_nat k)"

definition bitmap_total_set :: "bitmap_t \<Rightarrow> size_t" where
  "bitmap_total_set b = of_nat (length (filter (\<lambda>k. bitmap_test b (of_nat k)) [0..<bit_count b]))"

text \<open>The shape every bitmap made by \<open>bitmap_create\<close> has, and keeps.\<close>

definition wf_bitmap :: "bitmap_t \<Rightarrow> bool" where
  "wf_bitmap b \<longleftrightarrow> 0 < bit_count b \<and> bit_count b < 2 ^ 64 \<and> length (data b) = (bit_count b + 7) div 8"

section \<open>The block store\<close>

text \<open>
  In the source a store is an array of \<^verbatim>\<open>BLOCK_COUNT\<close> structs with one pointer each:
  \<^verbatim>\<open>bs[0 .. BLOCK_COUNT - 2].block\<close> point to \<^verbatim>\<open>BLOCK_SIZE\<close>-byte buffers and
  \<^verbatim>\<open>bs[BLOCK_COUNT - 1].block\<close> points to the bitmap object. The record keeps the two
  kinds of slot apart: \<open>blocks\<close> holds the contents of the byte buffers in index order,
  \<open>bitmap\<close> the object behind the last pointer. A store pointer that may be \<^verbatim>\<open>NULL\<close> is a
  \<open>block_store option\<close>, a caller's buffer that may be \<^verbatim>\<open>NULL\<close> a \<open>byte list option\<close>.
  Caller buffers are values of their own: they do not overlap the memory of the store
  (no function of the interface hands out a pointer into it).
\<close>

record block_store =
  blocks :: "byte list list"
  bitmap :: bitmap_t

text \<open>
  \<^verbatim>\<open>malloc (BLOCK_SIZE)\<close> returns memory with indeterminate contents: \<open>junk i j\<close> is the
  byte found at offset \<open>j\<close> of the buffer allocated for block \<open>i\<close>. The source does not
  test the results of \<^verbatim>\<open>malloc\<close>; the model covers the runs in which they succeed.
\<close>

definition malloc_block :: "(nat \<Rightarrow> nat \<Rightarrow> byte) \<Rightarrow> nat \<Rightarrow> byte list" where
  "malloc_block junk i = map (junk i) [0..<unat BLOCK_SIZE]"

definition block_store_create :: "(nat \<Rightarrow> nat \<Rightarrow> byte) \<Rightarrow> block_store option" where
  "block_store_create junk =
     (case bitmap_create BLOCK_COUNT of
        None \<Rightarrow> None
      | Some bm \<Rightarrow>
          Some \<lparr>blocks = map (malloc_block junk) [0..<unat (BLOCK_COUNT - 1)],
                bitmap = bitmap_set bm (BLOCK_COUNT - 1)\<rparr>)"

definition block_store_allocate :: "block_store option \<Rightarrow> size_t \<times> block_store option" where
  "block_store_allocate bs =
     (case bs of
        None \<Rightarrow> (SIZE_MAX, None)
      | Some s \<Rightarrow>
          (let block = bitmap_ffz (bitmap s) in
           if block = SIZE_MAX then (SIZE_MAX, Some s)
           else (block, Some (s\<lparr>bitmap := bitmap_set (bitmap s) block\<rparr>))))"

definition block_store_request :: "block_store option \<Rightarrow> size_t \<Rightarrow> bool \<times> block_store option" where
  "block_store_request bs block_id =
     (case bs of
        None \<Rightarrow> (False, None)
      | Some s \<Rightarrow>
          if block_id > BLOCK_COUNT - 1 then (False, Some s)
          else if \<not> bitmap_test (bitmap s) block_id
          then (True, Some (s\<lparr>bitmap := bitmap_set (bitmap s) block_id\<rparr>))
          else (False, Some s))"

definition block_store_release :: "block_store option \<Rightarrow> size_t \<Rightarrow> block_store option" where
  "block_store_release bs block_id =
     (case bs of
        None \<Rightarrow> None
      | Some s \<Rightarrow> Some (s\<lparr>bitmap := bitmap_reset (bitmap s) block_id\<rparr>))"

definition block_store_get_used_blocks :: "block_store option \<Rightarrow> size_t" where
  "block_store_get_used_blocks bs =
     (case bs of
        None \<Rightarrow> SIZE_MAX
      | Some s \<Rightarrow> (let used_blocks = bitmap_total_set (bitmap s) in used_blocks - 1))"

definition block_store_get_free_blocks :: "block_store option \<Rightarrow> size_t" where
  "block_store_get_free_blocks bs =
     (case bs of
        None \<Rightarrow> SIZE_MAX
      | Some s \<Rightarrow> (let free_blocks = BLOCK_COUNT - bitmap_total_set (bitmap s) in free_blocks))"

definition block_store_get_total_blocks :: size_t where
  "block_store_get_total_blocks = BLOCK_COUNT - 1"

subsection \<open>Reading and writing\<close>

text \<open>
  \<^verbatim>\<open>memcpy (dst, src, n)\<close> on buffers of at least \<open>n\<close> bytes (what the interface asks
  of its callers): the first \<open>n\<close> bytes of \<open>dst\<close> become those of \<open>src\<close>.
\<close>

definition memcpy :: "byte list \<Rightarrow> byte list \<Rightarrow> size_t \<Rightarrow> byte list" where
  "memcpy dst src n = take (unat n) src @ drop (unat n) dst"

text \<open>
  \<open>slot_bytes\<close> is what \<^verbatim>\<open>memcpy\<close> finds at \<^verbatim>\<open>bs[block_id].block\<close>. For a byte buffer
  it is the buffer. For the last slot it is whatever stands at the address of the bitmap
  object; that depends on the declaration of \<^verbatim>\<open>bitmap_t\<close>, which is not in the sources,
  so it is a parameter \<open>img\<close> of the model (the bytes found at the bitmap object).
\<close>

definition slot_bytes :: "(bitmap_t \<Rightarrow> byte list) \<Rightarrow> block_store \<Rightarrow> size_t \<Rightarrow> byte list" where
  "slot_bytes img s block_id =
     (if block_id = BLOCK_COUNT - 1 then img (bitmap s) else blocks s ! unat block_id)"

definition block_store_read ::
  "(bitmap_t \<Rightarrow> byte list) \<Rightarrow> block_store option \<Rightarrow> size_t \<Rightarrow> byte list option
     \<Rightarrow> size_t \<times> block_store option \<times> byte list option" where
  "block_store_read img bs block_id buffer =
     (case (bs, buffer) of
        (Some s, Some buf) \<Rightarrow>
          if block_id > BLOCK_COUNT - 1 then (0, bs, buffer)
          else (BLOCK_SIZE, bs, Some (memcpy buf (slot_bytes img s block_id) BLOCK_SIZE))
      | _ \<Rightarrow> (0, bs, buffer))"

text \<open>
  Storing into \<^verbatim>\<open>bs[block_id].block\<close>. For a byte buffer the buffer is updated. For
  the last slot \<^verbatim>\<open>memcpy\<close> writes \<^verbatim>\<open>BLOCK_SIZE\<close> bytes over the bitmap object: what
  the bitmap functions do with the result is not defined by the sources, so no store
  stands for it and the model records the fault \<open>Bitmap_Object_Overwritten\<close> in its
  place. \<open>block_store_write\<close> returns the number of bytes copied together with the
  store, or the fault, that the call leaves behind.
\<close>

datatype fault = Bitmap_Object_Overwritten

definition store_slot :: "block_store \<Rightarrow> size_t \<Rightarrow> byte list \<Rightarrow> fault + block_store" where
  "store_slot s block_id src =
     (if block_id = BLOCK_COUNT - 1 then Inl Bitmap_Object_Overwritten
      else Inr (s\<lparr>blocks := (blocks s)[unat block_id :=
                   memcpy (blocks s ! unat block_id) src BLOCK_SIZE]\<rparr>))"

definition block_store_write ::
  "block_store option \<Rightarrow> size_t \<Rightarrow> byte list option \<Rightarrow> size_t \<times> (fault + block_store option)" where
  "block_store_write bs block_id buffer =
     (case (bs, buffer) of
        (Some s, Some buf) \<Rightarrow>
          if block_id > BLOCK_COUNT - 1 then (0, Inr bs)
          else (BLOCK_SIZE,
                case store_slot s block_id buf of
                  Inl f \<Rightarrow> Inl f
                | Inr s' \<Rightarrow> Inr (Some s'))
      | _ \<Rightarrow> (0, Inr bs))"

subsection \<open>Well-formed stores and runs of operations\<close>

text \<open>
  The shape \<open>block_store_create\<close> establishes: \<^verbatim>\<open>BLOCK_COUNT - 1\<close> buffers of
  \<^verbatim>\<open>BLOCK_SIZE\<close> bytes and a bitmap of \<^verbatim>\<open>BLOCK_COUNT\<close> bits.
\<close>

definition wf_store :: "block_store \<Rightarrow> bool" where
  "wf_store s \<longleftrightarrow>
     length (blocks s) = unat (BLOCK_COUNT - 1) \<and>
     list_all (\<lambda>b. length b = unat BLOCK_SIZE) (blocks s) \<and>
     wf_bitmap (bitmap s) \<and> bit_count (bitmap s) = unat BLOCK_COUNT"

text \<open>
  The calls of the interface that take a live store and hand it back, and a run of such
  calls. A run ends at the first fault.
\<close>

datatype op =
    Allocate
  | Request size_t
  | Release size_t
  | Read size_t "byte list option"
  | Write size_t "byte list option"

fun step :: "(bitmap_t \<Rightarrow> byte list) \<Rightarrow> op \<Rightarrow> block_store option \<Rightarrow> fault + block_store option" where
  "step img Allocate bs = Inr (snd (block_store_allocate bs))"
| "step img (Request i) bs = Inr (snd (block_store_request bs i))"
| "step img (Release i) bs = Inr (block_store_release bs i)"
| "step img (Read i buffer) bs = Inr (fst (snd (block_store_read img bs i buffer)))"
| "step img (Write i buffer) bs = snd (block_store_write bs i buffer)"

fun run :: "(bitmap_t \<Rightarrow> byte list) \<Rightarrow> op list \<Rightarrow> block_store option \<Rightarrow> fault + block_store option" where
  "run img [] bs = Inr bs"
| "run img (x # xs) bs =
     (case step img x bs of Inl f \<Rightarrow> Inl f | Inr bs' \<Rightarrow> run img xs bs')"

text \<open>Concrete inputs for evaluation: zeroed memory, and an all-zero image.\<close>

definition zero_junk :: "nat \<Rightarrow> nat \<Rightarrow> byte" where
  "zero_junk i j = 0"

definition zero_image :: "bitmap_t \<Rightarrow> byte list" where
  "zero_image b = replicate (unat BLOCK_SIZE) 0"

text \<open>The store that \<open>block_store_create\<close> returns on zeroed memory.\<close>

definition fresh_store :: block_store where
  "fresh_store =
     \<lparr>blocks = map (malloc_block zero_junk) [0..<unat (BLOCK_COUNT - 1)],
      bitmap = bitmap_set \<lparr>bit_count = unat BLOCK_COUNT,
                           data = replicate ((unat BLOCK_COUNT + 7) div 8) 0\<rparr> (BLOCK_COUNT - 1)\<rparr>"

text \<open>A store in which every bit of the bitmap is set: all blocks are taken.\<close>

definition full_store :: block_store where
  "full_store =
     \<lparr>blocks = map (malloc_block zero_junk) [0..<unat (BLOCK_COUNT - 1)],
      bitmap = \<lparr>bit_count = unat BLOCK_COUNT,
                data = replicate ((unat BLOCK_COUNT + 7) div 8) (- 1)\<rparr>\<rparr>"

text \<open>
  The store reached from the created one by 255 allocations and a release of the reserved
  index.
\<close>

definition drained_store :: "block_store option" where
  "drained_store =
     (case run zero_image (replicate 255 Allocate @ [Release (BLOCK_COUNT - 1)])
             (block_store_create zero_junk) of
        Inl f \<Rightarrow> None
      | Inr bs \<Rightarrow> bs)"

section \<open>Size arithmetic\<close>

lemma size_consts [simp]:
  "unat BLOCK_SIZE = 256" "unat BLOCK_COUNT = 256" "unat (BLOCK_COUNT - 1) = 255"
  "BLOCK_COUNT - 1 = (255 :: size_t)"
  by (simp_all add: BLOCK_SIZE_def BLOCK_COUNT_def)

lemma unat_SIZE_MAX: "unat SIZE_MAX = 2 ^ 64 - 1"
  by (simp add: SIZE_MAX_def unsigned_minus_1_eq_mask mask_eq_exp_minus_1)

lemma user_index:
  assumes "block_id < BLOCK_COUNT - 1"
  shows "unat block_id < 255" "\<not> block_id > BLOCK_COUNT - 1" "block_id \<noteq> BLOCK_COUNT - 1"
  using assms by (auto simp add: word_less_nat_alt)

lemma used_free_arith:
  assumes "0 < c" "c \<le> 256"
  shows "unat (of_nat c - 1 :: size_t) + unat (256 - of_nat c :: size_t) = 255"
proof -
  have c: "unat (of_nat c :: size_t) = c" using assms by (simp add: unat_of_nat)
  have "(1 :: size_t) \<le> of_nat c" using assms c by (simp add: word_le_nat_alt)
  then have a: "unat (of_nat c - 1 :: size_t) = c - 1" using c by (simp add: unat_sub)
  have "(of_nat c :: size_t) \<le> 256" using assms c by (simp add: word_le_nat_alt)
  then have "unat (256 - of_nat c :: size_t) = 256 - c" using c by (simp add: unat_sub)
  with a assms show ?thesis by simp
qed

section \<open>Properties of the bitmap\<close>

text \<open>
  Setting and clearing a bit changes that bit and no other; the capacity and the size
  of the buffer stay as they are.
\<close>

lemma bit_count_set [simp]: "bit_count (bitmap_set b i) = bit_count b"
  by (simp add: bitmap_set_def)

lemma bit_count_reset [simp]: "bit_count (bitmap_reset b i) = bit_count b"
  by (simp add: bitmap_reset_def)

lemma wf_bitmap_set [simp]: "wf_bitmap (bitmap_set b i) = wf_bitmap b"
  by (simp add: bitmap_set_def wf_bitmap_def)

lemma wf_bitmap_reset [simp]: "wf_bitmap (bitmap_reset b i) = wf_bitmap b"
  by (simp add: bitmap_reset_def wf_bitmap_def)

lemma byte_index: "wf_bitmap b \<Longrightarrow> k < bit_count b \<Longrightarrow> k div 8 < length (data b)"
  by (simp add: wf_bitmap_def)

lemma split_index: "(i::nat) \<noteq> j \<Longrightarrow> i div 8 = j div 8 \<Longrightarrow> i mod 8 \<noteq> j mod 8"
  by (metis div_mult_mod_eq)

lemma test_set:
  assumes "wf_bitmap b"
  shows "bitmap_test (bitmap_set b i) j \<longleftrightarrow> (unat i < bit_count b \<and> j = i) \<or> bitmap_test b j"
proof (cases "unat i < bit_count b")
  case False
  then show ?thesis by (simp add: bitmap_set_def)
next
  case inr: True
  show ?thesis
  proof (cases "j = i")
    case True
    with inr byte_index [OF assms inr] show ?thesis
      by (simp add: bitmap_set_def bitmap_test_def bit_set_bit_iff)
  next
    case False
    then have ne: "unat i \<noteq> unat j" by (simp add: word_unat_eq_iff)
    show ?thesis
    proof (cases "unat i div 8 = unat j div 8")
      case True
      with ne have "unat i mod 8 \<noteq> unat j mod 8" by (rule split_index)
      with True inr False byte_index [OF assms inr] show ?thesis
        by (auto simp add: bitmap_set_def bitmap_test_def bit_set_bit_iff)
    next
      case False
      with inr \<open>j \<noteq> i\<close> show ?thesis
        by (auto simp add: bitmap_set_def bitmap_test_def)
    qed
  qed
qed

lemma test_reset:
  assumes "wf_bitmap b"
  shows "bitmap_test (bitmap_reset b i) j \<longleftrightarrow> j \<noteq> i \<and> bitmap_test b j"
proof (cases "unat i < bit_count b")
  case False
  then show ?thesis by (auto simp add: bitmap_reset_def bitmap_test_def)
next
  case inr: True
  show ?thesis
  proof (cases "j = i")
    case True
    with inr byte_index [OF assms inr] show ?thesis
      by (simp add: bitmap_reset_def bitmap_test_def bit_unset_bit_iff)
  next
    case False
    then have ne: "unat i \<noteq> unat j" by (simp add: word_unat_eq_iff)
    show ?thesis
    proof (cases "unat i div 8 = unat j div 8")
      case True
      with ne have "unat i mod 8 \<noteq> unat j mod 8" by (rule split_index)
      with True inr False byte_index [OF assms inr] show ?thesis
        by (auto simp add: bitmap_reset_def bitmap_test_def bit_unset_bit_iff)
    next
      case False
      with inr \<open>j \<noteq> i\<close> show ?thesis
        by (auto simp add: bitmap_reset_def bitmap_test_def)
    qed
  qed
qed

lemma unset_bit_twice: "unset_bit n (unset_bit n (w :: byte)) = unset_bit n w"
  by (rule bit_eqI) (simp add: bit_unset_bit_iff)

lemma reset_reset: "bitmap_reset (bitmap_reset b i) i = bitmap_reset b i"
  by (cases "unat i div 8 < length (data b)")
    (simp_all add: bitmap_reset_def unset_bit_twice not_less list_update_beyond)

lemma test_bitmap_create:
  "bitmap_create n = Some b \<Longrightarrow> \<not> bitmap_test b j"
  by (auto simp add: bitmap_create_def bitmap_test_def split: if_splits)

lemma wf_bitmap_create:
  "bitmap_create n = Some b \<Longrightarrow> wf_bitmap b \<and> bit_count b = unat n"
  using unsigned_less [of n, where 'a = nat]
  by (auto simp add: bitmap_create_def wf_bitmap_def unat_gt_0 split: if_splits)

text \<open>
  \<open>bitmap_ffz\<close> answers the least clear index, and \<^verbatim>\<open>SIZE_MAX\<close> exactly when there
  is none.
\<close>

lemma unat_of_nat_index: "wf_bitmap b \<Longrightarrow> k < bit_count b \<Longrightarrow> unat (of_nat k :: size_t) = k"
  by (simp add: wf_bitmap_def unat_of_nat)

lemma ffz_found:
  assumes "wf_bitmap b" "bitmap_ffz b \<noteq> SIZE_MAX"
  shows "unat (bitmap_ffz b) < bit_count b \<and> \<not> bitmap_test b (bitmap_ffz b)
         \<and> (\<forall>j. j < bitmap_ffz b \<longrightarrow> bitmap_test b j)"
proof -
  from assms(2) obtain k where f: "find (\<lambda>k. \<not> bitmap_test b (of_nat k)) [0..<bit_count b] = Some k"
    by (auto simp add: bitmap_ffz_def split: option.splits)
  then have r: "bitmap_ffz b = of_nat k" by (simp add: bitmap_ffz_def)
  from f obtain i where i: "i < bit_count b" "\<not> bitmap_test b (of_nat ([0..<bit_count b] ! i))"
      "k = [0..<bit_count b] ! i" "\<forall>j<i. bitmap_test b (of_nat ([0..<bit_count b] ! j))"
    by (auto simp add: find_Some_iff)
  then have k: "k = i" by simp
  have u: "unat (of_nat k :: size_t) = k" using assms(1) i(1) k by (simp add: unat_of_nat_index)
  have "bitmap_test b j" if "j < bitmap_ffz b" for j
  proof -
    from that have lt: "unat j < k" using r u by (simp add: word_less_nat_alt)
    then have "bitmap_test b (of_nat ([0..<bit_count b] ! unat j))" using i(4) k by blast
    moreover have "[0..<bit_count b] ! unat j = unat j" using lt i(1) k by simp
    ultimately show ?thesis by simp
  qed
  with i k r u show ?thesis by simp
qed

lemma ffz_none:
  assumes "wf_bitmap b"
  shows "bitmap_ffz b = SIZE_MAX \<longleftrightarrow> (\<forall>j. unat j < bit_count b \<longrightarrow> bitmap_test b j)"
proof
  assume m: "bitmap_ffz b = SIZE_MAX"
  have "find (\<lambda>k. \<not> bitmap_test b (of_nat k)) [0..<bit_count b] = None"
  proof (cases "find (\<lambda>k. \<not> bitmap_test b (of_nat k)) [0..<bit_count b]")
    case None then show ?thesis .
  next
    case (Some k)
    then have "k < bit_count b" by (auto simp add: find_Some_iff)
    then have "unat (of_nat k :: size_t) = k" and "k < 2 ^ 64 - 1"
      using assms unat_of_nat_index [of b k] by (simp_all add: wf_bitmap_def)
    moreover have "of_nat k = SIZE_MAX" using m Some by (simp add: bitmap_ffz_def)
    ultimately show ?thesis using unat_SIZE_MAX by simp
  qed
  then have a: "\<forall>k<bit_count b. bitmap_test b (of_nat k)" by (simp add: find_None_iff)
  show "\<forall>j. unat j < bit_count b \<longrightarrow> bitmap_test b j"
  proof (intro allI impI)
    fix j :: size_t assume "unat j < bit_count b"
    with a have "bitmap_test b (of_nat (unat j))" by blast
    then show "bitmap_test b j" by simp
  qed
next
  assume a: "\<forall>j. unat j < bit_count b \<longrightarrow> bitmap_test b j"
  have "find (\<lambda>k. \<not> bitmap_test b (of_nat k)) [0..<bit_count b] = None"
    using a assms by (auto simp add: find_None_iff unat_of_nat_index)
  then show "bitmap_ffz b = SIZE_MAX" by (simp add: bitmap_ffz_def)
qed

lemma ffz_least:
  assumes "wf_bitmap b" "unat i < bit_count b" "\<not> bitmap_test b i"
  shows "bitmap_ffz b \<noteq> SIZE_MAX \<and> bitmap_ffz b \<le> i"
proof -
  from assms have n: "bitmap_ffz b \<noteq> SIZE_MAX" by (auto simp add: ffz_none)
  from ffz_found [OF assms(1) n] assms(3) have "\<not> i < bitmap_ffz b" by blast
  with n show ?thesis by simp
qed

text \<open>
  \<open>bitmap_total_set\<close> lies between 1 and the capacity as soon as one bit is set.
\<close>

lemma count_le: "length (filter P [0..<n]) \<le> n"
  using length_filter_le [of P "[0..<n]"] by simp

lemma count_pos:
  assumes "wf_bitmap b" "bitmap_test b i"
  shows "0 < length (filter (\<lambda>k. bitmap_test b (of_nat k)) [0..<bit_count b])"
proof -
  from assms(2) have "unat i < bit_count b" by (simp add: bitmap_test_def)
  then have "unat i \<in> set (filter (\<lambda>k. bitmap_test b (of_nat k)) [0..<bit_count b])"
    using assms(2) by simp
  then show ?thesis by (rule length_pos_if_in_set)
qed

lemma total_set_single:
  assumes "wf_bitmap b" "\<forall>j. bitmap_test b j \<longleftrightarrow> j = i" "bitmap_test b i"
  shows "bitmap_total_set b = 1"
proof -
  have u: "unat i < bit_count b" using assms(3) by (simp add: bitmap_test_def)
  have "filter (\<lambda>k. bitmap_test b (of_nat k)) [0..<bit_count b] = filter (\<lambda>k. k = unat i) [0..<bit_count b]"
  proof (rule filter_cong [OF refl])
    fix k assume "k \<in> set [0..<bit_count b]"
    then have "unat (of_nat k :: size_t) = k" using assms(1) by (simp add: unat_of_nat_index)
    then have "of_nat k = i \<longleftrightarrow> k = unat i" by auto
    then show "bitmap_test b (of_nat k) \<longleftrightarrow> k = unat i"
      using assms(2) by simp
  qed
  then have "length (filter (\<lambda>k. bitmap_test b (of_nat k)) [0..<bit_count b])
      = card ({k. k = unat i} \<inter> set [0..<bit_count b])"
    by (simp only: distinct_length_filter [OF distinct_upt])
  moreover have "{k. k = unat i} \<inter> set [0..<bit_count b] = {unat i}" using u by auto
  ultimately show ?thesis by (simp add: bitmap_total_set_def)
qed

lemma total_set_bounds:
  assumes "wf_bitmap b" "bitmap_test b i"
  shows "\<exists>c. bitmap_total_set b = of_nat c \<and> 0 < c \<and> c \<le> bit_count b"
  using count_pos [OF assms] count_le [of "\<lambda>k. bitmap_test b (of_nat k)" "bit_count b"]
  by (auto simp add: bitmap_total_set_def)

section \<open>Properties of the block store\<close>

text \<open>
  What \<open>block_store_create\<close> builds: a well-formed store whose only set bit is the
  reserved one, whatever the contents of the allocated memory.
\<close>

lemma create_Some:
  "\<exists>bm. bitmap_create BLOCK_COUNT = Some bm \<and>
     block_store_create junk =
       Some \<lparr>blocks = map (malloc_block junk) [0..<unat (BLOCK_COUNT - 1)],
             bitmap = bitmap_set bm (BLOCK_COUNT - 1)\<rparr>"
  by (simp add: block_store_create_def bitmap_create_def BLOCK_COUNT_def)

lemma wf_storeD:
  "wf_store s \<Longrightarrow> wf_bitmap (bitmap s)" "wf_store s \<Longrightarrow> bit_count (bitmap s) = 256"
  by (simp_all add: wf_store_def)

lemma wf_store_bitmap_update:
  "wf_store s \<Longrightarrow> wf_store (s\<lparr>bitmap := bitmap_set (bitmap s) i\<rparr>)"
  "wf_store s \<Longrightarrow> wf_store (s\<lparr>bitmap := bitmap_reset (bitmap s) i\<rparr>)"
  by (simp_all add: wf_store_def)

lemma wf_store_create:
  assumes "block_store_create junk = Some s"
  shows "wf_store s"
proof -
  from create_Some [of junk] assms obtain bm where bm: "bitmap_create BLOCK_COUNT = Some bm"
    and s: "s = \<lparr>blocks = map (malloc_block junk) [0..<unat (BLOCK_COUNT - 1)],
             bitmap = bitmap_set bm (BLOCK_COUNT - 1)\<rparr>" by auto
  from wf_bitmap_create [OF bm] show ?thesis
    by (simp add: s wf_store_def list_all_iff malloc_block_def)
qed

lemma test_create:
  assumes "block_store_create junk = Some s"
  shows "bitmap_test (bitmap s) j \<longleftrightarrow> j = BLOCK_COUNT - 1"
proof -
  from create_Some [of junk] assms obtain bm where bm: "bitmap_create BLOCK_COUNT = Some bm"
    and s: "bitmap s = bitmap_set bm (BLOCK_COUNT - 1)" by auto
  from wf_bitmap_create [OF bm] test_bitmap_create [OF bm] show ?thesis
    by (simp add: s test_set)
qed

lemma create_zero_junk: "block_store_create zero_junk = Some fresh_store"
  by (simp add: block_store_create_def bitmap_create_def fresh_store_def BLOCK_COUNT_def)

lemma wf_fresh_store: "wf_store fresh_store"
  by (rule wf_store_create [OF create_zero_junk])

lemma test_fresh_store: "bitmap_test (bitmap fresh_store) j \<longleftrightarrow> j = BLOCK_COUNT - 1"
  by (rule test_create [OF create_zero_junk])

lemma allocate_fresh_store:
  "block_store_allocate (Some fresh_store)
     = (0, Some (fresh_store\<lparr>bitmap := bitmap_set (bitmap fresh_store) 0\<rparr>))"
proof -
  note w = wf_storeD [OF wf_fresh_store]
  have "unat (0 :: size_t) < bit_count (bitmap fresh_store)" using w(2) by simp
  from ffz_least [OF w(1) this] have "bitmap_ffz (bitmap fresh_store) = 0"
    by (simp add: test_fresh_store)
  then show ?thesis by (simp add: block_store_allocate_def Let_def SIZE_MAX_def)
qed

lemma wf_full_store: "wf_store full_store"
  by (simp add: full_store_def wf_store_def wf_bitmap_def list_all_iff malloc_block_def)

lemma test_full_store: "bitmap_test (bitmap full_store) i \<longleftrightarrow> i \<le> BLOCK_COUNT - 1"
proof -
  have "unat i < 256 \<Longrightarrow> unat i div 8 < 32" by simp
  moreover have "unat i mod 8 < 8" by simp
  ultimately show ?thesis
    by (auto simp add: full_store_def bitmap_test_def word_le_nat_alt)
qed

text \<open>
  Beyond the array (\<open>block_id \<ge> BLOCK_COUNT\<close>) reading and writing are refused and
  nothing changes.
\<close>

lemma read_write_beyond_count:
  assumes "block_id > BLOCK_COUNT - 1"
  shows "block_store_read img bs block_id buffer = (0, bs, buffer)"
    and "block_store_write bs block_id buffer = (0, Inr bs)"
  using assms by (simp_all add: block_store_read_def block_store_write_def split: option.splits)

subsection \<open>Runs\<close>

text \<open>
  Well-formedness is kept by every call (a written buffer has to hold the
  \<^verbatim>\<open>BLOCK_SIZE\<close> bytes that \<^verbatim>\<open>memcpy\<close> reads). A run faults only by writing to the
  reserved slot, and it keeps every set bit that it does not release: in particular the
  reserved bit stays set along every run without \<open>Release (BLOCK_COUNT - 1)\<close>.
\<close>

lemma list_all_update:
  assumes "list_all P xs" "i < length xs \<Longrightarrow> P v"
  shows "list_all P (xs[i := v])"
proof (cases "i < length xs")
  case True
  with assms have "P x" if "x \<in> set (xs[i := v])" for x
    using that set_update_subset_insert [of xs i v] by (auto simp add: list_all_iff)
  then show ?thesis by (simp add: list_all_iff)
next
  case False
  with assms(1) show ?thesis by (simp add: not_less list_update_beyond)
qed

lemma wf_store_step:
  assumes "step img x (Some s) = Inr bs'" "wf_store s"
    and "\<And>i buf. x = Write i (Some buf) \<Longrightarrow> unat BLOCK_SIZE \<le> length buf"
  shows "\<exists>s'. bs' = Some s' \<and> wf_store s'"
proof (cases x)
  case Allocate
  with assms(1,2) show ?thesis
    by (auto simp add: block_store_allocate_def Let_def wf_store_bitmap_update)
next
  case (Request j)
  with assms(1,2) show ?thesis
    by (auto simp add: block_store_request_def wf_store_bitmap_update)
next
  case (Release j)
  with assms(1,2) show ?thesis
    by (auto simp add: block_store_release_def wf_store_bitmap_update)
next
  case (Read j buffer)
  with assms(1) have "bs' = Some s"
    by (auto simp add: block_store_read_def split: option.splits)
  with assms(2) show ?thesis by simp
next
  case (Write j buffer)
  show ?thesis
  proof (cases buffer)
    case None
    with Write assms(1) have "bs' = Some s" by (auto simp add: block_store_write_def)
    with assms(2) show ?thesis by simp
  next
    case (Some buf)
    with Write assms(3) have len: "256 \<le> length buf" by simp
    have la: "list_all (\<lambda>b. length b = 256) (blocks s)"
      using assms(2) by (simp add: wf_store_def)
    have "list_all (\<lambda>b. length b = 256)
            ((blocks s)[unat j := memcpy (blocks s ! unat j) buf BLOCK_SIZE])"
    proof (rule list_all_update [OF la])
      assume "unat j < length (blocks s)"
      with la have "length (blocks s ! unat j) = 256" by (simp add: list_all_length)
      with len show "length (memcpy (blocks s ! unat j) buf BLOCK_SIZE) = 256"
        by (simp add: memcpy_def)
    qed
    then have "wf_store (s\<lparr>blocks := (blocks s)[unat j := memcpy (blocks s ! unat j) buf BLOCK_SIZE]\<rparr>)"
      using assms(2) by (simp add: wf_store_def)
    with Write Some assms(1,2) show ?thesis
      by (auto simp add: block_store_write_def store_slot_def split: if_splits)
  qed
qed

lemma step_total:
  assumes "\<forall>buf. x \<noteq> Write (BLOCK_COUNT - 1) (Some buf)"
  shows "\<exists>s'. step img x (Some s) = Inr (Some s')"
proof (cases x)
  case Allocate
  then show ?thesis by (simp add: block_store_allocate_def Let_def)
next
  case (Request j)
  then show ?thesis by (simp add: block_store_request_def)
next
  case (Release j)
  then show ?thesis by (simp add: block_store_release_def)
next
  case (Read j buffer)
  then show ?thesis by (simp add: block_store_read_def split: option.splits)
next
  case (Write j buffer)
  with assms show ?thesis
    by (cases buffer) (simp_all add: block_store_write_def store_slot_def)
qed

lemma run_total:
  assumes "\<forall>buf. Write (BLOCK_COUNT - 1) (Some buf) \<notin> set ops"
  shows "\<exists>s'. run img ops (Some s) = Inr (Some s')"
  using assms
proof (induction ops arbitrary: s)
  case Nil
  then show ?case by simp
next
  case (Cons x xs)
  then have "\<forall>buf. x \<noteq> Write (BLOCK_COUNT - 1) (Some buf)" by auto
  from step_total [OF this] obtain s1 where "step img x (Some s) = Inr (Some s1)" by blast
  moreover from Cons obtain s' where "run img xs (Some s1) = Inr (Some s')" by fastforce
  ultimately show ?case by simp
qed

lemma run_write_reserved_faults:
  "run img [Write (BLOCK_COUNT - 1) (Some buf)] (Some s) = Inl Bitmap_Object_Overwritten"
  by (simp add: block_store_write_def store_slot_def)

lemma step_keeps_bit:
  assumes "step img x (Some s) = Inr bs'" "wf_bitmap (bitmap s)" "x \<noteq> Release i"
    "bitmap_test (bitmap s) i"
  shows "\<exists>s'. bs' = Some s' \<and> wf_bitmap (bitmap s') \<and> bitmap_test (bitmap s') i"
proof (cases x)
  case Allocate
  with assms show ?thesis
    by (auto simp add: block_store_allocate_def Let_def test_set)
next
  case (Request j)
  with assms show ?thesis
    by (auto simp add: block_store_request_def test_set)
next
  case (Release j)
  with assms show ?thesis
    by (auto simp add: block_store_release_def test_reset)
next
  case (Read j buffer)
  with assms(1) have "bs' = Some s"
    by (auto simp add: block_store_read_def split: option.splits)
  with assms show ?thesis by simp
next
  case (Write j buffer)
  with assms show ?thesis
    by (auto simp add: block_store_write_def store_slot_def split: option.splits if_splits)
qed

lemma run_keeps_bit:
  assumes "run img ops (Some s) = Inr bs'" "wf_bitmap (bitmap s)" "Release i \<notin> set ops"
    "bitmap_test (bitmap s) i"
  shows "\<exists>s'. bs' = Some s' \<and> wf_bitmap (bitmap s') \<and> bitmap_test (bitmap s') i"
  using assms
proof (induction ops arbitrary: s)
  case Nil
  then have "bs' = Some s" by simp
  with Nil show ?case by simp
next
  case (Cons x xs)
  from Cons.prems(1) obtain bs1 where st: "step img x (Some s) = Inr bs1"
    and rn: "run img xs bs1 = Inr bs'"
    by (auto split: sum.splits)
  from Cons.prems(3) have ne: "x \<noteq> Release i" and rest: "Release i \<notin> set xs" by auto
  from step_keeps_bit [OF st Cons.prems(2) ne Cons.prems(4)]
  obtain s1 where s1: "bs1 = Some s1" "wf_bitmap (bitmap s1)" "bitmap_test (bitmap s1) i" by auto
  from Cons.IH [OF rn [unfolded s1(1)] s1(2) rest s1(3)] show ?case .
qed

section \<open>What the calls do on well-formed stores\<close>

text \<open>
  Allocation on a well-formed store: with a free user block the smallest clear index is
  returned and only its bit is set; with every bit of the bitmap set the answer is
  \<^verbatim>\<open>SIZE_MAX\<close> and the store is kept.
\<close>

lemma allocate_first_fit:
  assumes "wf_store s"
  shows "((\<exists>i. i < BLOCK_COUNT - 1 \<and> \<not> bitmap_test (bitmap s) i) \<longrightarrow>
            (\<exists>x. block_store_allocate (Some s) = (x, Some (s\<lparr>bitmap := bitmap_set (bitmap s) x\<rparr>))
               \<and> x < BLOCK_COUNT - 1
               \<and> \<not> bitmap_test (bitmap s) x
               \<and> (\<forall>j. j < x \<longrightarrow> bitmap_test (bitmap s) j)
               \<and> bitmap_test (bitmap_set (bitmap s) x) x
               \<and> (\<forall>j. j \<noteq> x \<longrightarrow> bitmap_test (bitmap_set (bitmap s) x) j = bitmap_test (bitmap s) j)))
       \<and> ((\<forall>i. i \<le> BLOCK_COUNT - 1 \<longrightarrow> bitmap_test (bitmap s) i) \<longrightarrow>
            block_store_allocate (Some s) = (SIZE_MAX, Some s))
       \<and> block_store_allocate None = (SIZE_MAX, None)"
proof (intro conjI impI)
  note w = wf_storeD [OF assms]
  show "block_store_allocate None = (SIZE_MAX, None)"
    by (simp add: block_store_allocate_def)
  {
    assume "\<forall>i. i \<le> BLOCK_COUNT - 1 \<longrightarrow> bitmap_test (bitmap s) i"
    then have "\<forall>j. unat j < bit_count (bitmap s) \<longrightarrow> bitmap_test (bitmap s) j"
      using w(2) by (auto simp add: word_le_nat_alt)
    then have "bitmap_ffz (bitmap s) = SIZE_MAX" using w(1) by (simp add: ffz_none)
    then show "block_store_allocate (Some s) = (SIZE_MAX, Some s)"
      by (simp add: block_store_allocate_def Let_def)
  }
  {
    assume "\<exists>i. i < BLOCK_COUNT - 1 \<and> \<not> bitmap_test (bitmap s) i"
    then obtain i where i: "i < 255" "\<not> bitmap_test (bitmap s) i" by auto
    then have "unat i < bit_count (bitmap s)" using w(2) by (simp add: word_less_nat_alt)
    from ffz_least [OF w(1) this i(2)]
    have n: "bitmap_ffz (bitmap s) \<noteq> SIZE_MAX" and le: "bitmap_ffz (bitmap s) \<le> i" by simp_all
    let ?x = "bitmap_ffz (bitmap s)"
    note f = ffz_found [OF w(1) n]
    have "block_store_allocate (Some s) = (?x, Some (s\<lparr>bitmap := bitmap_set (bitmap s) ?x\<rparr>))"
      using n by (simp add: block_store_allocate_def Let_def)
    moreover have "?x < BLOCK_COUNT - 1" using le i(1) by simp
    moreover have "bitmap_test (bitmap_set (bitmap s) ?x) ?x" using f w(1) by (simp add: test_set)
    moreover have "\<forall>j. j \<noteq> ?x \<longrightarrow> bitmap_test (bitmap_set (bitmap s) ?x) j = bitmap_test (bitmap s) j"
      using w(1) by (simp add: test_set)
    ultimately show "\<exists>x. block_store_allocate (Some s) = (x, Some (s\<lparr>bitmap := bitmap_set (bitmap s) x\<rparr>))
               \<and> x < BLOCK_COUNT - 1
               \<and> \<not> bitmap_test (bitmap s) x
               \<and> (\<forall>j. j < x \<longrightarrow> bitmap_test (bitmap s) j)
               \<and> bitmap_test (bitmap_set (bitmap s) x) x
               \<and> (\<forall>j. j \<noteq> x \<longrightarrow> bitmap_test (bitmap_set (bitmap s) x) j = bitmap_test (bitmap s) j)"
      using f by blast
  }
qed

lemma allocate_first_fit_example:
  "wf_store fresh_store
   \<and> (\<exists>i. i < BLOCK_COUNT - 1 \<and> \<not> bitmap_test (bitmap fresh_store) i)
   \<and> block_store_allocate (Some fresh_store)
        = (0, Some (fresh_store\<lparr>bitmap := bitmap_set (bitmap fresh_store) 0\<rparr>))
   \<and> wf_store full_store
   \<and> bitmap_test (bitmap full_store) 0 \<and> bitmap_test (bitmap full_store) (BLOCK_COUNT - 1)
   \<and> block_store_allocate (Some full_store) = (SIZE_MAX, Some full_store)"
proof -
  have f: "\<exists>i. i < BLOCK_COUNT - 1 \<and> \<not> bitmap_test (bitmap fresh_store) i"
    by (rule exI [of _ 0]) (simp add: test_fresh_store)
  with allocate_first_fit [OF wf_fresh_store]
  obtain x where x: "block_store_allocate (Some fresh_store)
        = (x, Some (fresh_store\<lparr>bitmap := bitmap_set (bitmap fresh_store) x\<rparr>))"
    "\<forall>j. j < x \<longrightarrow> bitmap_test (bitmap fresh_store) j" by blast
  have "x = 0"
  proof (rule ccontr)
    assume "x \<noteq> 0"
    then have "0 < x" by (simp add: word_neq_0_conv)
    with x(2) have "bitmap_test (bitmap fresh_store) 0" by blast
    then show False by (simp add: test_fresh_store)
  qed
  with x(1) f wf_fresh_store wf_full_store allocate_first_fit [OF wf_full_store]
  show ?thesis by (simp add: test_full_store)
qed

text \<open>
  A request succeeds exactly when the index passes the test of the code
  (\<open>block_id \<le> BLOCK_COUNT - 1\<close>) and the bit is clear; while the reserved bit is set this
  is the user range.
\<close>

lemma request_marks_free_block:
  assumes "wf_store s"
  shows "(fst (block_store_request (Some s) i) \<longleftrightarrow> i \<le> BLOCK_COUNT - 1 \<and> \<not> bitmap_test (bitmap s) i)
       \<and> (bitmap_test (bitmap s) (BLOCK_COUNT - 1) \<longrightarrow>
            (fst (block_store_request (Some s) i) \<longleftrightarrow> i < BLOCK_COUNT - 1 \<and> \<not> bitmap_test (bitmap s) i))
       \<and> (fst (block_store_request (Some s) i) \<longrightarrow>
            snd (block_store_request (Some s) i) = Some (s\<lparr>bitmap := bitmap_set (bitmap s) i\<rparr>)
            \<and> bitmap_test (bitmap_set (bitmap s) i) i
            \<and> (\<forall>j. j \<noteq> i \<longrightarrow> bitmap_test (bitmap_set (bitmap s) i) j = bitmap_test (bitmap s) j))
       \<and> (\<not> fst (block_store_request (Some s) i) \<longrightarrow> snd (block_store_request (Some s) i) = Some s)
       \<and> block_store_request None i = (False, None)"
proof -
  note w = wf_storeD [OF assms]
  have r: "i \<le> 255 \<Longrightarrow> unat i < bit_count (bitmap s)" using w(2) by (simp add: word_le_nat_alt)
  have a: "fst (block_store_request (Some s) i) \<longleftrightarrow> i \<le> BLOCK_COUNT - 1 \<and> \<not> bitmap_test (bitmap s) i"
    by (auto simp add: block_store_request_def)
  have b: "i < BLOCK_COUNT - 1 \<and> \<not> bitmap_test (bitmap s) i \<longleftrightarrow> i \<le> BLOCK_COUNT - 1 \<and> \<not> bitmap_test (bitmap s) i"
    if "bitmap_test (bitmap s) (BLOCK_COUNT - 1)" using that by (auto simp add: order_less_le)
  have c: "snd (block_store_request (Some s) i) = Some (s\<lparr>bitmap := bitmap_set (bitmap s) i\<rparr>)
            \<and> bitmap_test (bitmap_set (bitmap s) i) i
            \<and> (\<forall>j. j \<noteq> i \<longrightarrow> bitmap_test (bitmap_set (bitmap s) i) j = bitmap_test (bitmap s) j)"
    if "fst (block_store_request (Some s) i)"
    using that r w(1) by (auto simp add: block_store_request_def test_set split: if_splits)
  have d: "snd (block_store_request (Some s) i) = Some s" if "\<not> fst (block_store_request (Some s) i)"
    using that by (auto simp add: block_store_request_def split: if_splits)
  have e: "block_store_request None i = (False, None)" by (simp add: block_store_request_def)
  from a b c d e show ?thesis by blast
qed

lemma request_marks_free_block_example:
  "wf_store fresh_store \<and> bitmap_test (bitmap fresh_store) (BLOCK_COUNT - 1)
   \<and> fst (block_store_request (Some fresh_store) 7)
   \<and> snd (block_store_request (Some fresh_store) 7)
        = Some (fresh_store\<lparr>bitmap := bitmap_set (bitmap fresh_store) 7\<rparr>)
   \<and> \<not> fst (block_store_request (Some fresh_store) (BLOCK_COUNT - 1))
   \<and> snd (block_store_request (Some fresh_store) (BLOCK_COUNT - 1)) = Some fresh_store
   \<and> \<not> fst (block_store_request (Some fresh_store) BLOCK_COUNT)
   \<and> snd (block_store_request (Some fresh_store) BLOCK_COUNT) = Some fresh_store"
  using request_marks_free_block [OF wf_fresh_store, of 7]
    request_marks_free_block [OF wf_fresh_store, of "BLOCK_COUNT - 1"]
    request_marks_free_block [OF wf_fresh_store, of BLOCK_COUNT]
    wf_fresh_store
  by (simp add: test_fresh_store BLOCK_COUNT_def)

text \<open>
  Along a run that does not fault and does not release \<open>x\<close>, an allocated block \<open>x\<close>
  stays refused, and is granted again after its release.
\<close>

lemma request_fails_until_release:
  assumes "wf_store s"
    and "block_store_allocate (Some s) = (x, bs1)"
    and "x < BLOCK_COUNT - 1"
    and "Release x \<notin> set ops"
    and "run img ops bs1 = Inr bs2"
  shows "block_store_request bs2 x = (False, bs2)
       \<and> fst (block_store_request (block_store_release bs2 x) x)"
proof -
  note w = wf_storeD [OF assms(1)]
  have "x \<noteq> SIZE_MAX" using assms(3) by (auto simp add: SIZE_MAX_def)
  with assms(2) have x: "x = bitmap_ffz (bitmap s)" "bitmap_ffz (bitmap s) \<noteq> SIZE_MAX"
    and bs1: "bs1 = Some (s\<lparr>bitmap := bitmap_set (bitmap s) x\<rparr>)"
    by (auto simp add: block_store_allocate_def Let_def split: if_splits)
  from ffz_found [OF w(1) x(2)] x(1) have "unat x < bit_count (bitmap s)" by simp
  then have t1: "bitmap_test (bitmap (s\<lparr>bitmap := bitmap_set (bitmap s) x\<rparr>)) x"
    using w(1) by (simp add: test_set)
  have w1: "wf_bitmap (bitmap (s\<lparr>bitmap := bitmap_set (bitmap s) x\<rparr>))" using w(1) by simp
  from run_keeps_bit [OF assms(5) [unfolded bs1] w1 assms(4) t1]
  obtain s2 where s2: "bs2 = Some s2" "wf_bitmap (bitmap s2)" "bitmap_test (bitmap s2) x" by auto
  have le: "\<not> x > BLOCK_COUNT - 1" using assms(3) by simp
  have "block_store_request bs2 x = (False, bs2)"
    using s2 le by (simp add: block_store_request_def)
  moreover have "fst (block_store_request (block_store_release bs2 x) x)"
    using s2 le by (simp add: block_store_request_def block_store_release_def test_reset)
  ultimately show ?thesis by simp
qed

lemma request_fails_until_release_example:
  "wf_store fresh_store
   \<and> block_store_allocate (Some fresh_store)
        = (0, Some (fresh_store\<lparr>bitmap := bitmap_set (bitmap fresh_store) 0\<rparr>))
   \<and> (0 :: size_t) < BLOCK_COUNT - 1
   \<and> Release 0 \<notin> set [Request 7, Write 2 (Some (replicate 256 1)), Release 3,
                          Read 2 (Some (replicate 256 0)), Allocate, Request 0]
   \<and> (\<exists>bs2. run zero_image [Request 7, Write 2 (Some (replicate 256 1)), Release 3,
                               Read 2 (Some (replicate 256 0)), Allocate, Request 0]
               (Some (fresh_store\<lparr>bitmap := bitmap_set (bitmap fresh_store) 0\<rparr>)) = Inr bs2
         \<and> block_store_request bs2 0 = (False, bs2)
         \<and> fst (block_store_request (block_store_release bs2 0) 0))"
proof -
  let ?ops = "[Request 7, Write 2 (Some (replicate 256 1)), Release 3,
               Read 2 (Some (replicate 256 0)), Allocate, Request 0]"
  let ?bs1 = "Some (fresh_store\<lparr>bitmap := bitmap_set (bitmap fresh_store) 0\<rparr>)"
  have h: "(0 :: size_t) < BLOCK_COUNT - 1" "Release 0 \<notin> set ?ops" by simp_all
  have "\<forall>buf. Write (BLOCK_COUNT - 1) (Some buf) \<notin> set ?ops" by simp
  from run_total [OF this] obtain bs2 where r: "run zero_image ?ops ?bs1 = Inr bs2" by blast
  from request_fails_until_release [OF wf_fresh_store allocate_fresh_store h r]
    wf_fresh_store allocate_fresh_store h r
  show ?thesis by blast
qed

text \<open>
  Allocations fill the bitmap from index 0 upwards. The store \<open>drained_store\<close> is
  reached from the created store; in it exactly the user bits are set.
\<close>

lemma run_append:
  "run img (xs @ ys) bs = (case run img xs bs of Inl f \<Rightarrow> Inl f | Inr bs' \<Rightarrow> run img ys bs')"
  by (induction xs arbitrary: bs) (auto split: sum.splits)

lemma ffz_prefix:
  assumes "wf_bitmap b" "bit_count b = 256" "m \<le> 255"
    and "\<And>j. unat j < m \<Longrightarrow> bitmap_test b j"
    and "\<not> bitmap_test b (of_nat m)"
  shows "bitmap_ffz b = of_nat m"
proof -
  have um: "unat (of_nat m :: size_t) = m" using assms(3) by (simp add: unat_of_nat)
  then have "unat (of_nat m :: size_t) < bit_count b" using assms(2,3) by simp
  from ffz_least [OF assms(1) this assms(5)]
  have n: "bitmap_ffz b \<noteq> SIZE_MAX" and le: "bitmap_ffz b \<le> of_nat m" by simp_all
  from ffz_found [OF assms(1) n] have "\<not> bitmap_test b (bitmap_ffz b)" by simp
  with assms(4) have "\<not> unat (bitmap_ffz b) < m" by blast
  moreover from le um have "unat (bitmap_ffz b) \<le> m" by (simp add: word_le_nat_alt)
  ultimately have "unat (bitmap_ffz b) = unat (of_nat m :: size_t)" using um by simp
  then show ?thesis by (simp only: word_unat_eq_iff)
qed

lemma allocate_run:
  assumes "wf_store s" "m + k \<le> 255"
    and "\<And>j. bitmap_test (bitmap s) j \<longleftrightarrow> unat j < m \<or> j = 255"
  shows "\<exists>s'. run img (replicate k Allocate) (Some s) = Inr (Some s') \<and> wf_store s'
           \<and> (\<forall>j. bitmap_test (bitmap s') j \<longleftrightarrow> unat j < m + k \<or> j = 255)"
  using assms
proof (induction k arbitrary: s m)
  case 0
  then show ?case by simp
next
  case (Suc k)
  note w = wf_storeD [OF Suc.prems(1)]
  have m: "m < 255" using Suc.prems(2) by simp
  then have um: "unat (of_nat m :: size_t) = m" by (simp add: unat_of_nat)
  have ne: "(of_nat m :: size_t) \<noteq> 255" using um m by auto
  have clear: "\<not> bitmap_test (bitmap s) (of_nat m)"
  proof -
    have "\<not> (unat (of_nat m :: size_t) < m \<or> (of_nat m :: size_t) = 255)"
      using ne by (simp only: um) simp
    then show ?thesis using Suc.prems(3) by blast
  qed
  have f: "bitmap_ffz (bitmap s) = of_nat m"
  proof (rule ffz_prefix [OF w _ _ clear])
    show "m \<le> 255" using m by simp
    show "bitmap_test (bitmap s) j" if "unat j < m" for j
      using that by (simp add: Suc.prems(3))
  qed
  have "of_nat m \<noteq> SIZE_MAX" using um m unat_SIZE_MAX by auto
  with f have a: "block_store_allocate (Some s)
      = (of_nat m, Some (s\<lparr>bitmap := bitmap_set (bitmap s) (of_nat m)\<rparr>))"
    by (simp add: block_store_allocate_def Let_def)
  let ?s1 = "s\<lparr>bitmap := bitmap_set (bitmap s) (of_nat m)\<rparr>"
  have w1: "wf_store ?s1" by (rule wf_store_bitmap_update(1) [OF Suc.prems(1)])
  have inr: "unat (of_nat m :: size_t) < bit_count (bitmap s)" using um m w(2) by simp
  have t1: "bitmap_test (bitmap ?s1) j \<longleftrightarrow> unat j < Suc m \<or> j = 255" for j
  proof -
    have "j = of_nat m \<longleftrightarrow> unat j = m" using um by (auto simp add: word_unat_eq_iff)
    then show ?thesis using w(1) inr by (auto simp add: test_set Suc.prems(3))
  qed
  from Suc.IH [OF w1 _ t1] Suc.prems(2)
  obtain s' where "run img (replicate k Allocate) (Some ?s1) = Inr (Some s')" "wf_store s'"
    "\<forall>j. bitmap_test (bitmap s') j \<longleftrightarrow> unat j < Suc m + k \<or> j = 255" by auto
  with a show ?case by simp
qed

lemma drained_store_props:
  "\<exists>s. drained_store = Some s \<and> wf_store s
      \<and> run zero_image (replicate 255 Allocate @ [Release (BLOCK_COUNT - 1)])
            (block_store_create zero_junk) = Inr (Some s)
      \<and> (\<forall>j. bitmap_test (bitmap s) j \<longleftrightarrow> unat j < 255)"
proof -
  have t0: "bitmap_test (bitmap fresh_store) j \<longleftrightarrow> unat j < 0 \<or> j = 255" for j
    by (simp add: test_fresh_store)
  from allocate_run [OF wf_fresh_store _ t0, of 255 zero_image]
  obtain s1 where s1: "run zero_image (replicate 255 Allocate) (Some fresh_store) = Inr (Some s1)"
    "wf_store s1" "\<forall>j. bitmap_test (bitmap s1) j \<longleftrightarrow> unat j < 255 \<or> j = 255" by auto
  let ?s = "s1\<lparr>bitmap := bitmap_reset (bitmap s1) (BLOCK_COUNT - 1)\<rparr>"
  have r: "run zero_image (replicate 255 Allocate @ [Release (BLOCK_COUNT - 1)])
            (block_store_create zero_junk) = Inr (Some ?s)"
    using s1(1) by (simp add: run_append create_zero_junk block_store_release_def)
  have w: "wf_store ?s" by (rule wf_store_bitmap_update(2) [OF s1(2)])
  have t: "bitmap_test (bitmap ?s) j \<longleftrightarrow> unat j < 255" for j
    using wf_storeD(1) [OF s1(2)] s1(3) by (auto simp add: test_reset)
  from r w t show ?thesis by (simp add: drained_store_def)
qed

section \<open>The claims\<close>

text \<open>
  Claim C1: along every sequence of operations that starts with \<open>block_store_create\<close>
  bit \<open>BLOCK_COUNT - 1\<close> of the bitmap stays set, and \<open>block_store_release\<close> with
  \<open>block_id = BLOCK_COUNT - 1\<close> leaves it set. The code does not do this:
  \<open>block_store_release\<close> hands any \<open>block_id\<close> to \<open>bitmap_reset\<close>. On the store that
  \<open>block_store_create\<close> returns the reserved bit is set; after
  \<open>block_store_release\<close> with \<open>block_id = BLOCK_COUNT - 1\<close> it is clear, and
  \<open>block_store_get_used_blocks\<close>, which subtracts one for that bit, answers
  \<^verbatim>\<open>SIZE_MAX\<close>. (Every other call keeps the bit, see \<open>run_keeps_bit\<close>.)
\<close>

theorem release_clears_reserved_bit:
  "bitmap_test (bitmap fresh_store) (BLOCK_COUNT - 1)
   \<and> block_store_create zero_junk = Some fresh_store
   \<and> (case block_store_release (Some fresh_store) (BLOCK_COUNT - 1) of
         None \<Rightarrow> False
       | Some s \<Rightarrow> \<not> bitmap_test (bitmap s) (BLOCK_COUNT - 1)
           \<and> block_store_get_used_blocks (Some s) = SIZE_MAX)"
proof -
  let ?b = "bitmap_reset (bitmap fresh_store) (BLOCK_COUNT - 1)"
  have w: "wf_bitmap (bitmap fresh_store)" by (rule wf_storeD(1) [OF wf_fresh_store])
  have t: "\<not> bitmap_test ?b j" for j
    using w by (simp add: test_reset test_fresh_store)
  then have "bitmap_total_set ?b = 0" by (simp add: bitmap_total_set_def)
  with t show ?thesis
    by (simp add: block_store_release_def block_store_get_used_blocks_def test_fresh_store
        create_zero_junk SIZE_MAX_def)
qed

text \<open>
  Claim C2: \<open>block_store_read\<close> and \<open>block_store_write\<close> with
  \<open>block_id = BLOCK_COUNT - 1\<close> or \<open>block_id \<ge> BLOCK_COUNT\<close> return 0 and change neither
  the buffer nor the store. The code does this for \<open>block_id \<ge> BLOCK_COUNT\<close> only
  (\<open>read_write_beyond_count\<close>). Its test is \<open>block_id > BLOCK_COUNT - 1\<close>, which lets the
  reserved index through: for every store and every buffer, reading there copies the
  bytes found at the bitmap object into the buffer and returns \<^verbatim>\<open>BLOCK_SIZE\<close>, and
  writing there overwrites the bitmap object.
\<close>

theorem reserved_slot_read_write:
  "block_store_read img (Some s) (BLOCK_COUNT - 1) (Some buf)
     = (BLOCK_SIZE, Some s, Some (memcpy buf (img (bitmap s)) BLOCK_SIZE))
   \<and> block_store_write (Some s) (BLOCK_COUNT - 1) (Some buf)
       = (BLOCK_SIZE, Inl Bitmap_Object_Overwritten)"
  by (simp add: block_store_read_def block_store_write_def slot_bytes_def store_slot_def)

text \<open>
  Claim C3: on a store with a free user block \<open>block_store_allocate\<close> returns the
  smallest index whose bit is clear and sets that bit; on a store with no free block it
  returns \<^verbatim>\<open>SIZE_MAX\<close> and leaves the store as it is; on a null store it returns
  \<^verbatim>\<open>SIZE_MAX\<close>. The code does not do the second: \<open>bitmap_ffz\<close> scans all
  \<^verbatim>\<open>BLOCK_COUNT\<close> bits, the reserved one included. After 255 allocations on the created
  store and a release of index \<open>BLOCK_COUNT - 1\<close> no user block is free, and
  \<open>block_store_allocate\<close> returns \<open>BLOCK_COUNT - 1\<close>, not \<^verbatim>\<open>SIZE_MAX\<close>, and sets the
  reserved bit.
\<close>

theorem allocate_hands_out_reserved_slot:
  "run zero_image (replicate 255 Allocate @ [Release (BLOCK_COUNT - 1)])
       (block_store_create zero_junk) = Inr drained_store
   \<and> (case drained_store of
         None \<Rightarrow> False
       | Some s \<Rightarrow>
           filter (\<lambda>k. \<not> bitmap_test (bitmap s) (of_nat k)) [0..<unat (BLOCK_COUNT - 1)] = []
           \<and> block_store_allocate (Some s)
               = (BLOCK_COUNT - 1, Some (s\<lparr>bitmap := bitmap_set (bitmap s) (BLOCK_COUNT - 1)\<rparr>))
           \<and> BLOCK_COUNT - 1 \<noteq> SIZE_MAX
           \<and> \<not> bitmap_test (bitmap s) (BLOCK_COUNT - 1)
           \<and> bitmap_test (bitmap_set (bitmap s) (BLOCK_COUNT - 1)) (BLOCK_COUNT - 1))"
proof -
  from drained_store_props obtain s where s: "drained_store = Some s" "wf_store s"
    "run zero_image (replicate 255 Allocate @ [Release (BLOCK_COUNT - 1)])
            (block_store_create zero_junk) = Inr (Some s)"
    "\<forall>j. bitmap_test (bitmap s) j \<longleftrightarrow> unat j < 255" by blast
  note w = wf_storeD [OF s(2)]
  have "bitmap_test (bitmap s) (of_nat k)" if "k < 255" for k
    using that s(4) by (simp add: unat_of_nat)
  then have full: "filter (\<lambda>k. \<not> bitmap_test (bitmap s) (of_nat k)) [0..<unat (BLOCK_COUNT - 1)] = []"
    by (simp add: filter_empty_conv)
  have clear: "\<not> bitmap_test (bitmap s) (BLOCK_COUNT - 1)" using s(4) by simp
  have "bitmap_ffz (bitmap s) = of_nat 255"
    by (rule ffz_prefix [OF w]) (simp_all add: s(4))
  then have f: "bitmap_ffz (bitmap s) = 255" by simp
  have ne: "(255 :: size_t) \<noteq> SIZE_MAX" by (simp add: SIZE_MAX_def)
  have a: "block_store_allocate (Some s)
               = (BLOCK_COUNT - 1, Some (s\<lparr>bitmap := bitmap_set (bitmap s) (BLOCK_COUNT - 1)\<rparr>))"
    using f ne by (simp add: block_store_allocate_def Let_def)
  have set: "bitmap_test (bitmap_set (bitmap s) (BLOCK_COUNT - 1)) (BLOCK_COUNT - 1)"
    using w by (simp add: test_set)
  from s(3) full a ne clear set show ?thesis unfolding s(1) by simp
qed

text \<open>
  Claim C4: \<open>block_store_get_used_blocks + block_store_get_free_blocks\<close> equals
  \<open>block_store_get_total_blocks\<close>, which is 255. In \<^verbatim>\<open>size_t\<close> arithmetic this holds of
  every store, since \<open>(t - 1) + (BLOCK_COUNT - t) = BLOCK_COUNT - 1\<close> whatever the count
  \<open>t\<close> of set bits is. Read as natural numbers the two counts add up to 255 on every
  well-formed store whose reserved bit is set (then \<open>1 \<le> t \<le> 256\<close> and nothing wraps
  around).
\<close>

theorem used_plus_free_is_total:
  "block_store_get_used_blocks (Some s) + block_store_get_free_blocks (Some s)
     = block_store_get_total_blocks
   \<and> block_store_get_total_blocks = 255
   \<and> (wf_store s \<and> bitmap_test (bitmap s) (BLOCK_COUNT - 1) \<longrightarrow>
        unat (block_store_get_used_blocks (Some s)) + unat (block_store_get_free_blocks (Some s)) = 255)"
proof (intro conjI impI)
  show "block_store_get_used_blocks (Some s) + block_store_get_free_blocks (Some s)
     = block_store_get_total_blocks"
    by (simp add: block_store_get_used_blocks_def block_store_get_free_blocks_def
        block_store_get_total_blocks_def BLOCK_COUNT_def)
  show "block_store_get_total_blocks = 255"
    by (simp add: block_store_get_total_blocks_def)
  assume "wf_store s \<and> bitmap_test (bitmap s) (BLOCK_COUNT - 1)"
  then have w: "wf_bitmap (bitmap s)" "bit_count (bitmap s) = 256"
    and t: "bitmap_test (bitmap s) (BLOCK_COUNT - 1)" by (simp_all add: wf_store_def)
  from total_set_bounds [OF w(1) t] w(2)
  obtain c where "bitmap_total_set (bitmap s) = of_nat c" "0 < c" "c \<le> 256" by auto
  then show "unat (block_store_get_used_blocks (Some s)) + unat (block_store_get_free_blocks (Some s)) = 255"
    using used_free_arith [of c]
    by (simp add: block_store_get_used_blocks_def block_store_get_free_blocks_def BLOCK_COUNT_def)
qed

theorem used_plus_free_is_total_witness:
  "wf_store fresh_store \<and> bitmap_test (bitmap fresh_store) (BLOCK_COUNT - 1)
   \<and> unat (block_store_get_used_blocks (Some fresh_store))
       + unat (block_store_get_free_blocks (Some fresh_store)) = 255"
  using used_plus_free_is_total [of fresh_store] wf_fresh_store
  by (simp add: test_fresh_store)

text \<open>
  Claim C5: for a user block index and a payload \<open>B\<close> of \<^verbatim>\<open>BLOCK_SIZE\<close> bytes,
  \<open>block_store_write\<close> followed by \<open>block_store_read\<close> of the same block gives \<open>B\<close>
  back (in the first \<^verbatim>\<open>BLOCK_SIZE\<close> bytes of the destination, which is all of it for a
  destination of that size), both calls return \<^verbatim>\<open>BLOCK_SIZE\<close>, and nothing is asked of
  the block's bit in the bitmap.
\<close>

theorem write_read_round_trip:
  assumes "wf_store s" "block_id < BLOCK_COUNT - 1" "length B = unat BLOCK_SIZE"
  shows "\<exists>s'. block_store_write (Some s) block_id (Some B) = (BLOCK_SIZE, Inr (Some s'))
           \<and> bitmap s' = bitmap s
           \<and> block_store_read img (Some s') block_id (Some B2)
               = (BLOCK_SIZE, Some s', Some (B @ drop (unat BLOCK_SIZE) B2))
           \<and> (length B2 = unat BLOCK_SIZE \<longrightarrow>
                block_store_read img (Some s') block_id (Some B2) = (BLOCK_SIZE, Some s', Some B))"
proof -
  let ?s' = "s\<lparr>blocks := (blocks s)[unat block_id := memcpy (blocks s ! unat block_id) B BLOCK_SIZE]\<rparr>"
  note u = user_index [OF assms(2)]
  have len: "length (blocks s) = 255" "length (blocks s ! unat block_id) = 256"
    using assms(1) u(1) by (simp_all add: wf_store_def list_all_length)
  have w: "block_store_write (Some s) block_id (Some B) = (BLOCK_SIZE, Inr (Some ?s'))"
    using u by (simp add: block_store_write_def store_slot_def)
  have blk: "blocks ?s' ! unat block_id = B"
    using len u(1) assms(3) by (simp add: memcpy_def)
  have r: "block_store_read img (Some ?s') block_id (Some B2)
             = (BLOCK_SIZE, Some ?s', Some (B @ drop (unat BLOCK_SIZE) B2))"
    using u blk assms(3) by (simp add: block_store_read_def slot_bytes_def memcpy_def)
  from w r show ?thesis by (intro exI [of _ ?s']) simp
qed

theorem write_read_round_trip_witness:
  "wf_store fresh_store \<and> (3 :: size_t) < BLOCK_COUNT - 1
   \<and> length (replicate 256 (255 :: byte)) = unat BLOCK_SIZE
   \<and> length (replicate 256 (0 :: byte)) = unat BLOCK_SIZE
   \<and> (\<exists>s'. block_store_write (Some fresh_store) 3 (Some (replicate 256 255)) = (BLOCK_SIZE, Inr (Some s'))
         \<and> block_store_read zero_image (Some s') 3 (Some (replicate 256 0))
             = (BLOCK_SIZE, Some s', Some (replicate 256 255)))"
proof -
  have h: "(3 :: size_t) < BLOCK_COUNT - 1" "length (replicate 256 (255 :: byte)) = unat BLOCK_SIZE"
    "length (replicate 256 (0 :: byte)) = unat BLOCK_SIZE"
    by simp_all
  from write_read_round_trip [OF wf_fresh_store h(1) h(2), of zero_image "replicate 256 0"] h(3)
  have "\<exists>s'. block_store_write (Some fresh_store) 3 (Some (replicate 256 255)) = (BLOCK_SIZE, Inr (Some s'))
         \<and> block_store_read zero_image (Some s') 3 (Some (replicate 256 0))
             = (BLOCK_SIZE, Some s', Some (replicate 256 255))"
    by blast
  with wf_fresh_store h show ?thesis by blast
qed

text \<open>
  Claim C6: \<open>block_store_request\<close> returns true and sets the bit exactly when the store
  is not null, the index is in range and the block is free; in every other case it returns
  false and leaves the store as it is. The code does not do this for the reserved index:
  its test \<open>block_id > BLOCK_COUNT - 1\<close> lets \<open>BLOCK_COUNT - 1\<close> through. On the created
  store, after a release of index \<open>BLOCK_COUNT - 1\<close>, the request of that index returns
  true and sets the bit.
\<close>

theorem request_takes_reserved_slot:
  "block_store_create zero_junk = Some fresh_store
   \<and> (case block_store_release (Some fresh_store) (BLOCK_COUNT - 1) of
         None \<Rightarrow> False
       | Some s \<Rightarrow>
           \<not> bitmap_test (bitmap s) (BLOCK_COUNT - 1)
           \<and> block_store_request (Some s) (BLOCK_COUNT - 1)
               = (True, Some (s\<lparr>bitmap := bitmap_set (bitmap s) (BLOCK_COUNT - 1)\<rparr>))
           \<and> bitmap_test (bitmap_set (bitmap s) (BLOCK_COUNT - 1)) (BLOCK_COUNT - 1))"
proof -
  let ?s = "fresh_store\<lparr>bitmap := bitmap_reset (bitmap fresh_store) (BLOCK_COUNT - 1)\<rparr>"
  note w = wf_storeD [OF wf_fresh_store]
  have c: "\<not> bitmap_test (bitmap ?s) (BLOCK_COUNT - 1)" using w(1) by (simp add: test_reset)
  then have r: "block_store_request (Some ?s) (BLOCK_COUNT - 1)
               = (True, Some (?s\<lparr>bitmap := bitmap_set (bitmap ?s) (BLOCK_COUNT - 1)\<rparr>))"
    by (simp add: block_store_request_def)
  have t: "bitmap_test (bitmap_set (bitmap ?s) (BLOCK_COUNT - 1)) (BLOCK_COUNT - 1)"
    using w by (simp add: test_set)
  from c r t show ?thesis
    by (simp add: create_zero_junk block_store_release_def)
qed


text \<open>
  Claim C8: \<open>block_store_release\<close> clears the bit of the block and nothing else, the
  block is free after it, a second release of the same block gives the same state as the
  first, and on a null store release does nothing.
\<close>

theorem release_idempotent:
  assumes "wf_store s"
  shows "(\<exists>s'. block_store_release (Some s) i = Some s'
            \<and> \<not> bitmap_test (bitmap s') i
            \<and> (\<forall>j. j \<noteq> i \<longrightarrow> bitmap_test (bitmap s') j = bitmap_test (bitmap s) j)
            \<and> blocks s' = blocks s
            \<and> block_store_release (Some s') i = Some s')
       \<and> block_store_release (block_store_release (Some s) i) i = block_store_release (Some s) i
       \<and> block_store_release None i = None"
  using wf_storeD(1) [OF assms]
  by (simp add: block_store_release_def test_reset reset_reset)

theorem release_idempotent_witness:
  "wf_store (fresh_store\<lparr>bitmap := bitmap_set (bitmap fresh_store) 3\<rparr>)
   \<and> bitmap_test (bitmap (fresh_store\<lparr>bitmap := bitmap_set (bitmap fresh_store) 3\<rparr>)) 3
   \<and> (\<exists>s'. block_store_release (Some (fresh_store\<lparr>bitmap := bitmap_set (bitmap fresh_store) 3\<rparr>)) 3 = Some s'
         \<and> \<not> bitmap_test (bitmap s') 3
         \<and> block_store_release (Some s') 3 = Some s')"
proof -
  let ?s = "fresh_store\<lparr>bitmap := bitmap_set (bitmap fresh_store) 3\<rparr>"
  have w: "wf_store ?s" by (rule wf_store_bitmap_update(1) [OF wf_fresh_store])
  have t: "bitmap_test (bitmap ?s) 3"
    using wf_storeD [OF wf_fresh_store] by (simp add: test_set)
  from release_idempotent [OF w, of 3] w t show ?thesis by blast
qed

text \<open>
  Claim C9: right after \<open>block_store_create\<close> every user block is free:
  \<open>block_store_get_used_blocks\<close> is 0, \<open>block_store_get_free_blocks\<close> is
  \<open>BLOCK_COUNT - 1\<close>, and \<open>block_store_request\<close> succeeds on any one user block.
\<close>

theorem create_all_free:
  "\<exists>s. block_store_create junk = Some s
      \<and> (\<forall>i. i < BLOCK_COUNT - 1 \<longrightarrow> \<not> bitmap_test (bitmap s) i)
      \<and> block_store_get_used_blocks (Some s) = 0
      \<and> block_store_get_free_blocks (Some s) = BLOCK_COUNT - 1
      \<and> (\<forall>i. i < BLOCK_COUNT - 1 \<longrightarrow>
            block_store_request (Some s) i = (True, Some (s\<lparr>bitmap := bitmap_set (bitmap s) i\<rparr>)))"
proof -
  from create_Some [of junk] obtain s where s: "block_store_create junk = Some s" by auto
  note t = test_create [OF s]
  have w: "wf_bitmap (bitmap s)" by (rule wf_storeD(1) [OF wf_store_create [OF s]])
  have n: "bitmap_total_set (bitmap s) = 1"
    by (rule total_set_single [OF w, of "BLOCK_COUNT - 1"]) (simp_all add: t)
  have f: "\<not> bitmap_test (bitmap s) i" if "i < BLOCK_COUNT - 1" for i
    using that by (simp add: t)
  have r: "block_store_request (Some s) i = (True, Some (s\<lparr>bitmap := bitmap_set (bitmap s) i\<rparr>))"
    if "i < BLOCK_COUNT - 1" for i
    using that f [OF that] by (simp add: block_store_request_def)
  from s n f r show ?thesis
    by (intro exI [of _ s])
      (simp add: block_store_get_used_blocks_def block_store_get_free_blocks_def BLOCK_COUNT_def)
qed

theorem create_all_free_witness:
  "block_store_create zero_junk = Some fresh_store
   \<and> (7 :: size_t) < BLOCK_COUNT - 1
   \<and> \<not> bitmap_test (bitmap fresh_store) 7
   \<and> block_store_get_used_blocks (Some fresh_store) = 0
   \<and> block_store_get_free_blocks (Some fresh_store) = BLOCK_COUNT - 1
   \<and> block_store_request (Some fresh_store) 7
        = (True, Some (fresh_store\<lparr>bitmap := bitmap_set (bitmap fresh_store) 7\<rparr>))"
proof -
  have h: "(7 :: size_t) < BLOCK_COUNT - 1" by simp
  from create_all_free [of zero_junk] h show ?thesis
    by (auto simp add: create_zero_junk)
qed

text \<open>
  Claim C10: \<open>block_store_read\<close> hands the store back as it received it, bitmap and
  blocks alike, whether it copies or refuses.
\<close>

theorem read_leaves_store:
  "fst (snd (block_store_read img bs block_id buffer)) = bs"
  by (simp add: block_store_read_def split: option.splits)

end
